theory Spec2Isabelle
  imports Complex_Main "HOL-Library.Log_Nat"
begin

section \<open>Poll service of the game night decider\<close>

text \<open>
  The development follows \<^verbatim>\<open>src/core/poll_service.py\<close>: the vote limiter
  (\<^verbatim>\<open>calculate_effective_limit\<close>), vote casting and toggling (\<^verbatim>\<open>cast_vote\<close>),
  the category resolver (\<^verbatim>\<open>resolve_category_votes\<close>) and poll closing
  (\<^verbatim>\<open>close_poll\<close>).
\<close>

subsection \<open>Vote limiter\<close>

text \<open>
  \<^verbatim>\<open>VoteLimit.AUTO\<close> and \<^verbatim>\<open>VoteLimit.UNLIMITED\<close> are integer constants of
  \<^verbatim>\<open>src/core/models.py\<close>. Their values are not fixed here: every function that reads
  them takes the pair of constants as its first argument.
\<close>

record VoteLimit =
  AUTO :: int
  UNLIMITED :: int

text \<open>
  \<^verbatim>\<open>math.log2\<close> computes in binary64: applied to an integer it returns the double that
  the platform's C library gives for the logarithm. That double, as a real number, is the
  parameter \<open>math_log2\<close>; nothing is assumed of it in the definitions. \<^verbatim>\<open>math.ceil\<close> of
  a finite double is its exact ceiling, an integer. The call is only reached for
  \<open>game_count > 0\<close>, where \<^verbatim>\<open>math.log2\<close> is defined and finite. The result \<open>None\<close>
  stands for Python's \<^verbatim>\<open>None\<close> (unlimited).
\<close>

definition calculate_effective_limit ::
  "VoteLimit \<Rightarrow> (int \<Rightarrow> real) \<Rightarrow> int \<Rightarrow> int \<Rightarrow> int option" where
  "calculate_effective_limit VL math_log2 vote_limit game_count =
     (if vote_limit = AUTO VL then
        (if game_count \<le> 0 then Some 3
         else Some (max 3 \<lceil>math_log2 game_count\<rceil>))
      else if vote_limit = UNLIMITED VL then None
      else Some vote_limit)"

text \<open>A sample pair of sentinels, used to run the functions on concrete inputs.\<close>

definition vl_example :: VoteLimit where
  "vl_example = \<lparr>AUTO = - 1, UNLIMITED = - 2\<rparr>"

text \<open>
  Two sample logarithms. \<open>log2_exact\<close> is the real logarithm, which \<^verbatim>\<open>math.log2\<close>
  approximates. \<open>log2_rounded_sample\<close> agrees with it except at \<open>2\<^sup>4\<^sup>9 + 1\<close>, where it
  is 49 as \<^verbatim>\<open>math.log2\<close> is in binary64: the logarithm there exceeds 49 by less than
  \<open>2\<^sup>-\<^sup>4\<^sup>8\<close>, half the distance between 49 and the next double.
\<close>

definition log2_exact :: "int \<Rightarrow> real" where
  "log2_exact n = log 2 (real_of_int n)"


subsection \<open>Votes and the vote store\<close>

text \<open>
  \<^verbatim>\<open>VoteType\<close> and the row type \<^verbatim>\<open>PollVote\<close> are declared in
  \<^verbatim>\<open>src/core/models.py\<close>; the fields are the ones \<^verbatim>\<open>poll_service.py\<close> reads and
  writes. A column that was never assigned is \<open>None\<close>. The table of votes is the list of
  its rows in insertion order; the primary key \<^verbatim>\<open>id\<close> is never null, so
  \<^verbatim>\<open>count(PollVote.id)\<close> counts rows.
\<close>

datatype VoteType = GAME | CATEGORY

record PollVote =
  poll_id :: string
  user_id :: int
  vote_type :: VoteType
  game_id :: "int option"
  category_level :: "int option"
  user_name :: string

record VoteResult =
  success :: bool
  message :: string
  is_removal :: bool

datatype error = MultipleResultsFound | IndexError

text \<open>Python's \<^verbatim>\<open>str\<close> of an integer, as an f-string prints it.\<close>

definition digit_char :: "nat \<Rightarrow> char" where
  "digit_char d = ''0123456789'' ! d"

fun str_nat :: "nat \<Rightarrow> string" where
  "str_nat n = (if n < 10 then [digit_char n] else str_nat (n div 10) @ [digit_char (n mod 10)])"

declare str_nat.simps [simp del]

definition str_int :: "int \<Rightarrow> string" where
  "str_int i = (if i < 0 then CHR ''-'' # str_nat (nat (- i)) else str_nat (nat i))"

subsection \<open>Casting and toggling a vote\<close>

text \<open>
  The \<^verbatim>\<open>where\<close> clause of the lookup: poll, user and vote type, and the target
  compared with \<^verbatim>\<open>game_id\<close> for a GAME vote, with \<^verbatim>\<open>category_level\<close> otherwise.
  A null column never equals the target.
\<close>

definition vote_matches :: "string \<Rightarrow> int \<Rightarrow> VoteType \<Rightarrow> int \<Rightarrow> PollVote \<Rightarrow> bool" where
  "vote_matches pid uid vt target_id v \<longleftrightarrow>
     poll_id v = pid \<and> user_id v = uid \<and> vote_type v = vt \<and>
     (if vt = GAME then game_id v = Some target_id else category_level v = Some target_id)"

text \<open>
  SQLAlchemy's \<^verbatim>\<open>scalar_one_or_none\<close>: no row gives \<^verbatim>\<open>None\<close>, one row gives the row,
  more rows raise \<^verbatim>\<open>MultipleResultsFound\<close>.
\<close>

definition scalar_one_or_none :: "'a list \<Rightarrow> error + 'a option" where
  "scalar_one_or_none rows =
     (case rows of [] \<Rightarrow> Inr None | [r] \<Rightarrow> Inr (Some r) | _ \<Rightarrow> Inl MultipleResultsFound)"

definition user_vote_count :: "PollVote list \<Rightarrow> string \<Rightarrow> int \<Rightarrow> int" where
  "user_vote_count votes pid uid =
     int (length (filter (\<lambda>v. poll_id v = pid \<and> user_id v = uid) votes))"

definition limit_message :: "int \<Rightarrow> int \<Rightarrow> string" where
  "limit_message cnt limit =
     ''Vote limit reached ('' @ str_int cnt @ ''/'' @ str_int limit @ ''). Remove a vote first!''"

definition new_vote :: "string \<Rightarrow> int \<Rightarrow> VoteType \<Rightarrow> string \<Rightarrow> int \<Rightarrow> PollVote" where
  "new_vote pid uid vt uname target_id =
     (if vt = GAME then
        \<lparr>poll_id = pid, user_id = uid, vote_type = vt, game_id = Some target_id,
         category_level = None, user_name = uname\<rparr>
      else
        \<lparr>poll_id = pid, user_id = uid, vote_type = vt, game_id = None,
         category_level = Some target_id, user_name = uname\<rparr>)"

text \<open>The die emoji U+1F3B2 of the category message, as its four UTF-8 bytes.\<close>

definition voted_message :: "VoteType \<Rightarrow> int \<Rightarrow> string" where
  "voted_message vt target_id =
     (if vt = CATEGORY then
        [CHR 0xF0, CHR 0x9F, CHR 0x8E, CHR 0xB2] @ '' Voted on Category '' @ str_int target_id @ ''!''
      else ''Vote recorded'')"

text \<open>
  \<open>cast_vote\<close> takes the table of votes and returns the result together with the table
  after the commit. An exception (\<open>Inl\<close>) leaves nothing committed. Deleting the row
  that the lookup returned is \<open>remove1\<close>: the lookup returns a row only when exactly one
  row matches, so no other row equals it. A new row goes to the end of the table. Row
  locking is a matter of concurrent sessions and has no counterpart in one call.
\<close>

definition cast_vote ::
  "VoteLimit \<Rightarrow> (int \<Rightarrow> real) \<Rightarrow> PollVote list \<Rightarrow> string \<Rightarrow> int \<Rightarrow> int \<Rightarrow> VoteType \<Rightarrow> string \<Rightarrow> int \<Rightarrow> int
     \<Rightarrow> error + (VoteResult \<times> PollVote list)" where
  "cast_vote VL math_log2 votes pid uid target_id vt uname vote_limit game_count =
     (case scalar_one_or_none (filter (vote_matches pid uid vt target_id) votes) of
        Inl e \<Rightarrow> Inl e
      | Inr (Some existing_vote) \<Rightarrow>
          Inr (\<lparr>success = True, message = ''Vote removed'', is_removal = True\<rparr>,
               remove1 existing_vote votes)
      | Inr None \<Rightarrow>
          (case calculate_effective_limit VL math_log2 vote_limit game_count of
             Some effective_limit \<Rightarrow>
               if effective_limit \<le> user_vote_count votes pid uid then
                 Inr (\<lparr>success = False,
                       message = limit_message (user_vote_count votes pid uid) effective_limit,
                       is_removal = False\<rparr>, votes)
               else
                 Inr (\<lparr>success = True, message = voted_message vt target_id, is_removal = False\<rparr>,
                      votes @ [new_vote pid uid vt uname target_id])
           | None \<Rightarrow>
               Inr (\<lparr>success = True, message = voted_message vt target_id, is_removal = False\<rparr>,
                    votes @ [new_vote pid uid vt uname target_id])))"

subsection \<open>The store invariant and per-kind counts\<close>

text \<open>
  The data model keeps a vote unique per poll, user, kind and target. The key of a row is
  what the lookup of \<open>cast_vote\<close> compares; the table is well formed when no two rows
  share a key. \<open>kind_count\<close> counts one user's votes of one kind in a poll.
\<close>

definition vote_key :: "PollVote \<Rightarrow> string \<times> int \<times> VoteType \<times> int option" where
  "vote_key v =
     (poll_id v, user_id v, vote_type v,
      if vote_type v = GAME then game_id v else category_level v)"

definition unique_votes :: "PollVote list \<Rightarrow> bool" where
  "unique_votes votes \<longleftrightarrow> distinct (map vote_key votes)"

definition kind_count :: "PollVote list \<Rightarrow> string \<Rightarrow> int \<Rightarrow> VoteType \<Rightarrow> int" where
  "kind_count votes pid uid vt =
     int (length (filter (\<lambda>v. poll_id v = pid \<and> user_id v = uid \<and> vote_type v = vt) votes))"

text \<open>Sample rows: Ann and Bob voting in poll \<open>p1\<close>.\<close>

definition vote_ann_game :: PollVote where
  "vote_ann_game = \<lparr>poll_id = ''p1'', user_id = 1, vote_type = GAME, game_id = Some 10,
     category_level = None, user_name = ''ann''\<rparr>"

definition vote_ann_cat :: PollVote where
  "vote_ann_cat = \<lparr>poll_id = ''p1'', user_id = 1, vote_type = CATEGORY, game_id = None,
     category_level = Some 3, user_name = ''ann''\<rparr>"

definition vote_bob_cat :: PollVote where
  "vote_bob_cat = \<lparr>poll_id = ''p1'', user_id = 2, vote_type = CATEGORY, game_id = None,
     category_level = Some 3, user_name = ''bob''\<rparr>"

subsection \<open>Category resolver\<close>

text \<open>
  A candidate game: identifier, display name and complexity level (the fields are
  prefixed, \<open>id\<close> being taken). A resolved vote is the named tuple
  \<^verbatim>\<open>ResolvedVote(game_id, user_id)\<close>.
\<close>

record Game =
  g_id :: int
  g_name :: string
  g_complexity :: int

datatype ResolvedVote = ResolvedVote (rv_game_id: "int option") (rv_user_id: int)

text \<open>
  Modelled from the spec: \<^verbatim>\<open>group_games_by_complexity\<close> of \<^verbatim>\<open>src/core/logic.py\<close>,
  which is not among the sources. The spec has it partition the candidate games into
  groups keyed by complexity level; a level without a game is no key.
\<close>

definition group_games_by_complexity :: "Game list \<Rightarrow> (int option \<rightharpoonup> Game list)" where
  "group_games_by_complexity games key =
     (case key of
        None \<Rightarrow> None
      | Some level \<Rightarrow>
          (if filter (\<lambda>g. g_complexity g = level) games = [] then None
           else Some (filter (\<lambda>g. g_complexity g = level) games)))"

text \<open>Python's \<^verbatim>\<open>groups.get(level, [])\<close>.\<close>

definition dict_get :: "('k \<rightharpoonup> 'a list) \<Rightarrow> 'k \<Rightarrow> 'a list" where
  "dict_get d key = (case d key of None \<Rightarrow> [] | Some xs \<Rightarrow> xs)"

text \<open>
  \<^verbatim>\<open>random.choice\<close> draws an index below the length of the sequence and raises
  \<^verbatim>\<open>IndexError\<close> on an empty one. The generator is a sequence \<open>rnd\<close> of raw draws and
  the number \<open>k\<close> of draws already consumed; every index of the sequence is the
  outcome of some draw.
\<close>

definition random_choice :: "(nat \<Rightarrow> nat) \<Rightarrow> nat \<Rightarrow> 'a list \<Rightarrow> error + ('a \<times> nat)" where
  "random_choice rnd k seq =
     (if seq = [] then Inl IndexError else Inr (seq ! (rnd k mod length seq), Suc k))"

text \<open>The first loop: one representative per category level that was voted for.\<close>

fun choose_categories ::
  "(int option \<rightharpoonup> Game list) \<Rightarrow> (nat \<Rightarrow> nat) \<Rightarrow> PollVote list \<Rightarrow> (int option \<rightharpoonup> Game) \<Rightarrow> nat
     \<Rightarrow> error + ((int option \<rightharpoonup> Game) \<times> nat)" where
  "choose_categories groups rnd [] category_resolutions k = Inr (category_resolutions, k)"
| "choose_categories groups rnd (v # vs) category_resolutions k =
     (if vote_type v = CATEGORY \<and> category_resolutions (category_level v) = None
         \<and> dict_get groups (category_level v) \<noteq> [] then
        (case random_choice rnd k (dict_get groups (category_level v)) of
           Inl e \<Rightarrow> Inl e
         | Inr (g, k') \<Rightarrow>
             choose_categories groups rnd vs (category_resolutions(category_level v \<mapsto> g)) k')
      else choose_categories groups rnd vs category_resolutions k)"

text \<open>The second loop: the resolved votes, in the order of the votes.\<close>

fun build_resolved_votes :: "(int option \<rightharpoonup> Game) \<Rightarrow> PollVote list \<Rightarrow> ResolvedVote list" where
  "build_resolved_votes category_resolutions [] = []"
| "build_resolved_votes category_resolutions (v # vs) =
     (if vote_type v = CATEGORY then
        (case category_resolutions (category_level v) of
           Some g \<Rightarrow> ResolvedVote (Some (g_id g)) (user_id v)
                      # build_resolved_votes category_resolutions vs
         | None \<Rightarrow> build_resolved_votes category_resolutions vs)
      else if vote_type v = GAME then
        ResolvedVote (game_id v) (user_id v) # build_resolved_votes category_resolutions vs
      else build_resolved_votes category_resolutions vs)"

definition resolve_category_votes ::
  "(nat \<Rightarrow> nat) \<Rightarrow> nat \<Rightarrow> PollVote list \<Rightarrow> Game list \<Rightarrow> error + ResolvedVote list" where
  "resolve_category_votes rnd k all_votes valid_games =
     (case choose_categories (group_games_by_complexity valid_games) rnd all_votes Map.empty k of
        Inl e \<Rightarrow> Inl e
      | Inr (category_resolutions, k') \<Rightarrow> Inr (build_resolved_votes category_resolutions all_votes))"

text \<open>Whether some candidate game has the given complexity level.\<close>

definition level_has_game :: "Game list \<Rightarrow> int option \<Rightarrow> bool" where
  "level_has_game games level \<longleftrightarrow> level \<in> set (map (\<lambda>g. Some (g_complexity g)) games)"

text \<open>
  Sample data: a generator that always draws \<open>d\<close>, three candidate games, and votes of
  four users in poll \<open>p1\<close>.
\<close>

definition rnd_const :: "nat \<Rightarrow> nat \<Rightarrow> nat" where
  "rnd_const d k = d"

definition game_catan :: Game where
  "game_catan = \<lparr>g_id = 1, g_name = ''Catan'', g_complexity = 1\<rparr>"

definition game_wingspan :: Game where
  "game_wingspan = \<lparr>g_id = 2, g_name = ''Wingspan'', g_complexity = 1\<rparr>"

definition game_gloomhaven :: Game where
  "game_gloomhaven = \<lparr>g_id = 3, g_name = ''Gloomhaven'', g_complexity = 3\<rparr>"

definition vote_ann_catan :: PollVote where
  "vote_ann_catan = \<lparr>poll_id = ''p1'', user_id = 1, vote_type = GAME, game_id = Some 1,
     category_level = None, user_name = ''ann''\<rparr>"

definition vote_bob_cat1 :: PollVote where
  "vote_bob_cat1 = \<lparr>poll_id = ''p1'', user_id = 2, vote_type = CATEGORY, game_id = None,
     category_level = Some 1, user_name = ''bob''\<rparr>"

definition vote_cy_cat1 :: PollVote where
  "vote_cy_cat1 = \<lparr>poll_id = ''p1'', user_id = 3, vote_type = CATEGORY, game_id = None,
     category_level = Some 1, user_name = ''cy''\<rparr>"

definition vote_dee_cat7 :: PollVote where
  "vote_dee_cat7 = \<lparr>poll_id = ''p1'', user_id = 4, vote_type = CATEGORY, game_id = None,
     category_level = Some 7, user_name = ''dee''\<rparr>"

subsection \<open>Poll closing\<close>

text \<open>
  What \<^verbatim>\<open>close_poll\<close> and its helpers read from the database session: the table of
  votes, the session of a chat with its \<^verbatim>\<open>settings_weighted\<close> flag (absent when the
  chat has no session), and, for a game, the users whose collection row for it is in state
  \<^verbatim>\<open>STARRED\<close>, which is the result of the query of \<^verbatim>\<open>build_star_collections\<close>.
\<close>

record Database =
  poll_votes :: "PollVote list"
  sessions :: "int \<rightharpoonup> bool"
  starred_by :: "int \<Rightarrow> int list"

definition get_votes_for_poll :: "Database \<Rightarrow> string \<Rightarrow> PollVote list" where
  "get_votes_for_poll db pid = filter (\<lambda>v. poll_id v = pid) (poll_votes db)"

fun star_collections_loop ::
  "Database \<Rightarrow> Game list \<Rightarrow> int set \<Rightarrow> (int \<rightharpoonup> int list) \<Rightarrow> (int \<rightharpoonup> int list)" where
  "star_collections_loop db [] priority_ids star_collections = star_collections"
| "star_collections_loop db (g # gs) priority_ids star_collections =
     star_collections_loop db gs priority_ids
       (if g_id g \<in> priority_ids then star_collections(g_id g \<mapsto> starred_by db (g_id g))
        else star_collections)"

definition build_star_collections :: "Database \<Rightarrow> Game list \<Rightarrow> int set \<Rightarrow> (int \<rightharpoonup> int list)" where
  "build_star_collections db valid_games priority_ids =
     star_collections_loop db valid_games priority_ids Map.empty"

text \<open>
  Modelled from the spec: \<^verbatim>\<open>calculate_poll_winner\<close> of \<^verbatim>\<open>src/core/logic.py\<close>, which is
  not among the sources. After section 4.4 of the spec, steps 4 to 7. The raw score of a
  game is the number of resolved votes referencing it. In weighted mode the score of a
  game of the priority set is adjusted by an external policy that takes the raw score, the
  users who starred the game and the number of voters, and returns the adjusted score and
  a log line; other games keep their raw score. The scored games are the candidates
  and every game referenced by a resolved vote, each once, candidates first; the score map
  has an entry for each of them. The winners are all scored games whose final score is the
  maximum, returned by name: the display name of a candidate, and for a game that is not a
  candidate the name an external catalogue gives. The policy and the catalogue are
  parameters.
\<close>

type_synonym bonus_policy = "real \<Rightarrow> int list \<Rightarrow> nat \<Rightarrow> real \<times> string"

definition raw_score :: "ResolvedVote list \<Rightarrow> int \<Rightarrow> nat" where
  "raw_score votes gid = length (filter (\<lambda>r. rv_game_id r = Some gid) votes)"

definition total_voters :: "ResolvedVote list \<Rightarrow> nat" where
  "total_voters votes = length (remdups (map rv_user_id votes))"

definition starring_users :: "(int \<rightharpoonup> int list) option \<Rightarrow> int \<Rightarrow> int list" where
  "starring_users star_collections gid =
     (case star_collections of None \<Rightarrow> [] | Some m \<Rightarrow> dict_get m gid)"

definition final_score ::
  "bonus_policy \<Rightarrow> ResolvedVote list \<Rightarrow> int set \<Rightarrow> bool \<Rightarrow> (int \<rightharpoonup> int list) option \<Rightarrow> int
     \<Rightarrow> real \<times> string list" where
  "final_score policy votes priority_ids is_weighted star_collections gid =
     (if is_weighted \<and> gid \<in> priority_ids then
        (case policy (real (raw_score votes gid)) (starring_users star_collections gid)
                (total_voters votes) of
           (adjusted, log_line) \<Rightarrow> (adjusted, [log_line]))
      else (real (raw_score votes gid), []))"

fun voted_ids :: "ResolvedVote list \<Rightarrow> int list" where
  "voted_ids [] = []"
| "voted_ids (r # rs) =
     (case rv_game_id r of None \<Rightarrow> voted_ids rs | Some gid \<Rightarrow> gid # voted_ids rs)"

definition scored_ids :: "Game list \<Rightarrow> ResolvedVote list \<Rightarrow> int list" where
  "scored_ids valid_games votes = rev (remdups (rev (map g_id valid_games @ voted_ids votes)))"

definition game_name :: "(int \<Rightarrow> string) \<Rightarrow> Game list \<Rightarrow> int \<Rightarrow> string" where
  "game_name name_of valid_games gid =
     (case find (\<lambda>g. g_id g = gid) valid_games of Some g \<Rightarrow> g_name g | None \<Rightarrow> name_of gid)"

fun max_list :: "real list \<Rightarrow> real option" where
  "max_list [] = None"
| "max_list (x # xs) = Some (fold max xs x)"

definition calculate_poll_winner ::
  "bonus_policy \<Rightarrow> (int \<Rightarrow> string) \<Rightarrow> Game list \<Rightarrow> ResolvedVote list \<Rightarrow> int set \<Rightarrow> bool
     \<Rightarrow> (int \<rightharpoonup> int list) option \<Rightarrow> string list \<times> (int \<rightharpoonup> real) \<times> string list" where
  "calculate_poll_winner policy name_of valid_games votes priority_ids is_weighted star_collections =
     (let scored = map (\<lambda>gid. (gid, final_score policy votes priority_ids is_weighted
                                     star_collections gid))
                       (scored_ids valid_games votes);
          winners = (case max_list (map (\<lambda>(gid, s, l). s) scored) of
                       None \<Rightarrow> []
                     | Some m \<Rightarrow> map (\<lambda>(gid, s, l). game_name name_of valid_games gid)
                                  (filter (\<lambda>(gid, s, l). s = m) scored));
          scores = map_of (map (\<lambda>(gid, s, l). (gid, s)) scored);
          modifiers_log = concat (map (\<lambda>(gid, s, l). l) scored)
      in (winners, scores, modifiers_log))"

text \<open>
  \<open>close_poll\<close> fetches the votes of the poll, resolves the category votes, reads the
  weighting flag (off when the chat has no session), builds the star collections in
  weighted mode and hands everything to \<open>calculate_poll_winner\<close>.
\<close>

definition session_is_weighted :: "Database \<Rightarrow> int \<Rightarrow> bool" where
  "session_is_weighted db chat_id = (case sessions db chat_id of None \<Rightarrow> False | Some w \<Rightarrow> w)"

definition close_poll ::
  "bonus_policy \<Rightarrow> (int \<Rightarrow> string) \<Rightarrow> (nat \<Rightarrow> nat) \<Rightarrow> nat \<Rightarrow> Database \<Rightarrow> string \<Rightarrow> int
     \<Rightarrow> Game list \<Rightarrow> int set \<Rightarrow> error + (string list \<times> (int \<rightharpoonup> real) \<times> string list)" where
  "close_poll policy name_of rnd k db pid chat_id valid_games priority_ids =
     (case resolve_category_votes rnd k (get_votes_for_poll db pid) valid_games of
        Inl e \<Rightarrow> Inl e
      | Inr resolved_votes \<Rightarrow>
          (let is_weighted = session_is_weighted db chat_id;
               star_collections =
                 (if is_weighted then Some (build_star_collections db valid_games priority_ids)
                  else None)
           in Inr (calculate_poll_winner policy name_of valid_games resolved_votes priority_ids
                     is_weighted star_collections)))"

text \<open>
  Sample data for poll closing: a bonus of one point per starring user, a catalogue that
  knows no names, seven GAME votes in poll \<open>p2\<close> (three for game 1, three for game 2, one
  for game 3), a database without sessions and one where chat 7 is weighted and game 3 is
  starred by two users. Both also hold two votes of poll \<open>p1\<close>, one of them for game 10,
  which is not a candidate.
\<close>

definition bonus_per_star :: bonus_policy where
  "bonus_per_star raw starring voters = (raw + real (length starring), ''starred'')"

definition name_unlisted :: "int \<Rightarrow> string" where
  "name_unlisted gid = ''unlisted''"

definition tie_votes :: "PollVote list" where
  "tie_votes = map (\<lambda>(uid, gid). new_vote ''p2'' uid GAME ''voter'' gid)
     [(1, 1), (2, 1), (3, 1), (1, 2), (2, 2), (3, 2), (1, 3)]"

definition db_tie :: Database where
  "db_tie = \<lparr>poll_votes = vote_ann_game # vote_bob_cat # tie_votes, sessions = Map.empty,
     starred_by = (\<lambda>gid. [])\<rparr>"

definition db_weighted :: Database where
  "db_weighted = \<lparr>poll_votes = vote_ann_game # vote_bob_cat # tie_votes, sessions = [7 \<mapsto> True],
     starred_by = (\<lambda>gid. if gid = 3 then [8, 9] else [])\<rparr>"

subsection \<open>Facts about the vote limiter\<close>









text \<open>
  The logarithm of \<open>2\<^sup>4\<^sup>9 + 1\<close> exceeds 49 by less than \<open>2\<^sup>-\<^sup>4\<^sup>8\<close>. Doubles between 32 and 64
  are \<open>2\<^sup>-\<^sup>4\<^sup>7\<close> apart, so 49 is the double nearest to it.
\<close>

lemma ln2_gt_half: "1 / 2 < ln (2::real)"
proof -
  have "exp (1 / 2 :: real) \<le> 1 + 1 / 2 + (1 / 2)\<^sup>2" by (rule exp_bound) simp_all
  then have "exp (1 / 2 :: real) < 2" by (simp add: power2_eq_square)
  then have "ln (exp (1 / 2 :: real)) < ln 2" by (subst ln_less_cancel_iff) simp_all
  then show ?thesis by simp
qed

lemma log2_one_plus_bounds:
  fixes x :: real
  assumes "0 < x"
  shows "0 < log 2 (1 + x)" and "log 2 (1 + x) < 2 * x"
proof -
  have l2: "0 < ln (2::real)" by simp
  have p: "0 < ln (1 + x)" using assms by simp
  have u: "ln (1 + x) \<le> x" using assms by (intro ln_add_one_self_le_self) simp
  have d: "log 2 (1 + x) = ln (1 + x) / ln 2" by (simp add: log_def)
  show "0 < log 2 (1 + x)" unfolding d using p l2 by (rule divide_pos_pos)
  have "ln (1 + x) / ln 2 \<le> x / ln 2" using u l2 by (rule divide_right_mono [OF _ less_imp_le])
  also have "x / ln 2 < x / (1 / 2)"
    using ln2_gt_half assms by (intro divide_strict_left_mono) simp_all
  also have "x / (1 / 2) = 2 * x" by simp
  finally show "log 2 (1 + x) < 2 * x" unfolding d .
qed

lemma log2_near_49:
  "49 < log 2 (562949953421313::real)" "log 2 (562949953421313::real) < 49 + 1 / 2 ^ 48"
proof -
  define x :: real where "x = 1 / 2 ^ 49"
  have x: "0 < x" by (simp add: x_def)
  have e: "(562949953421313::real) = 2 ^ 49 * (1 + x)" by (simp add: x_def)
  have "log 2 (2 ^ 49 * (1 + x)) = log 2 (2 ^ 49) + log 2 (1 + x)"
    using x by (intro log_mult_pos) simp_all
  moreover have "log 2 ((2::real) ^ 49) = real 49"
    by (rule log_pow_cancel) simp_all
  ultimately have l: "log 2 (562949953421313::real) = 49 + log 2 (1 + x)"
    by (simp only: e [symmetric])
  have t: "2 * x = 1 / 2 ^ 48" by (simp add: x_def)
  from log2_one_plus_bounds [OF x] l t
  show "49 < log 2 (562949953421313::real)" "log 2 (562949953421313::real) < 49 + 1 / 2 ^ 48"
    by linarith+
qed






subsection \<open>Facts about casting votes\<close>

lemma vote_matches_key:
  "vote_matches pid uid vt target_id v \<longleftrightarrow> vote_key v = (pid, uid, vt, Some target_id)"
  by (auto simp: vote_matches_def vote_key_def)

lemma distinct_map_filter_le1:
  "distinct (map f xs) \<Longrightarrow> length (filter (\<lambda>x. f x = a) xs) \<le> 1"
  by (induction xs) (auto simp: filter_empty_conv image_iff)

lemma unique_votes_matches:
  "unique_votes votes \<Longrightarrow> length (filter (vote_matches pid uid vt target_id) votes) \<le> 1"
  unfolding unique_votes_def vote_matches_key by (rule distinct_map_filter_le1)

lemma user_vote_count_kinds:
  "user_vote_count votes pid uid = kind_count votes pid uid GAME + kind_count votes pid uid CATEGORY"
proof (induction votes)
  case Nil
  show ?case by (simp add: user_vote_count_def kind_count_def)
next
  case (Cons v vs)
  then show ?case
    by (cases "vote_type v") (auto simp: user_vote_count_def kind_count_def)
qed

lemma unique_match_single:
  assumes "unique_votes votes" "v \<in> set votes" "vote_matches pid uid vt target_id v"
  shows "filter (vote_matches pid uid vt target_id) votes = [v]"
proof -
  let ?ms = "filter (vote_matches pid uid vt target_id) votes"
  have "v \<in> set ?ms" using assms by simp
  moreover have "length ?ms \<le> 1" using assms(1) by (rule unique_votes_matches)
  ultimately show ?thesis by (cases ?ms) auto
qed

lemma cast_vote_existing:
  assumes "filter (vote_matches pid uid vt target_id) votes = [v]"
  shows "cast_vote VL math_log2 votes pid uid target_id vt uname vote_limit game_count
     = Inr (\<lparr>success = True, message = ''Vote removed'', is_removal = True\<rparr>, remove1 v votes)"
  using assms by (simp add: cast_vote_def scalar_one_or_none_def)

text \<open>Two matching rows make the lookup raise, and nothing is committed.\<close>

lemma cast_vote_duplicate_rows:
  assumes "2 \<le> length (filter (vote_matches pid uid vt target_id) votes)"
  shows "cast_vote VL math_log2 votes pid uid target_id vt uname vote_limit game_count
     = Inl MultipleResultsFound"
proof -
  obtain a b rest where "filter (vote_matches pid uid vt target_id) votes = a # b # rest"
    using assms
    by (cases "filter (vote_matches pid uid vt target_id) votes" rule: remdups_adj.cases) auto
  then show ?thesis by (simp add: cast_vote_def scalar_one_or_none_def)
qed

lemma cast_vote_limit:
  assumes "filter (vote_matches pid uid vt target_id) votes = []"
    and "calculate_effective_limit VL math_log2 vote_limit game_count = Some limit"
    and "limit \<le> user_vote_count votes pid uid"
  shows "cast_vote VL math_log2 votes pid uid target_id vt uname vote_limit game_count
     = Inr (\<lparr>success = False, message = limit_message (user_vote_count votes pid uid) limit,
             is_removal = False\<rparr>, votes)"
  using assms by (simp add: cast_vote_def scalar_one_or_none_def)

lemma cast_vote_insert:
  assumes "filter (vote_matches pid uid vt target_id) votes = []"
    and "\<And>limit. calculate_effective_limit VL math_log2 vote_limit game_count = Some limit
           \<Longrightarrow> user_vote_count votes pid uid < limit"
  shows "cast_vote VL math_log2 votes pid uid target_id vt uname vote_limit game_count
     = Inr (\<lparr>success = True, message = voted_message vt target_id, is_removal = False\<rparr>,
            votes @ [new_vote pid uid vt uname target_id])"
  using assms by (auto simp: cast_vote_def scalar_one_or_none_def split: option.splits)

lemma new_vote_matches: "vote_matches pid uid vt target_id (new_vote pid uid vt uname target_id)"
  by (simp add: vote_matches_def new_vote_def)

lemma remove1_append_last: "x \<notin> set xs \<Longrightarrow> remove1 x (xs @ [x]) = xs"
  by (induction xs) auto

lemma no_match_not_member:
  "filter (vote_matches pid uid vt target_id) votes = []
   \<Longrightarrow> new_vote pid uid vt uname target_id \<notin> set votes"
  using new_vote_matches by (auto simp: filter_empty_conv)

lemma distinct_map_remove1: "distinct (map f xs) \<Longrightarrow> distinct (map f (remove1 x xs))"
proof (induction xs)
  case Nil then show ?case by simp
next
  case (Cons y ys)
  have "set (remove1 x ys) \<subseteq> set ys" by (rule set_remove1_subset)
  with Cons show ?case by auto
qed

lemma cast_vote_preserves_unique:
  assumes "unique_votes votes"
    and "cast_vote VL math_log2 votes pid uid target_id vt uname vote_limit game_count = Inr (r, votes')"
  shows "unique_votes votes'"
proof -
  let ?ms = "filter (vote_matches pid uid vt target_id) votes"
  have fresh: "?ms = [] \<Longrightarrow> unique_votes (votes @ [new_vote pid uid vt uname target_id])"
  proof -
    assume e: "?ms = []"
    have "vote_key (new_vote pid uid vt uname target_id) = (pid, uid, vt, Some target_id)"
      using new_vote_matches by (simp add: vote_matches_key)
    moreover have "(pid, uid, vt, Some target_id) \<notin> vote_key ` set votes"
      using e by (auto simp: filter_empty_conv vote_matches_key)
    ultimately show ?thesis using assms(1) by (simp add: unique_votes_def)
  qed
  have rem: "\<And>v. unique_votes (remove1 v votes)"
    using assms(1) by (simp add: unique_votes_def distinct_map_remove1)
  show ?thesis
    using assms(2) fresh rem assms(1)
    by (auto simp: cast_vote_def scalar_one_or_none_def split: list.splits option.splits if_splits)
qed

lemmas example_votes = vote_ann_game_def vote_ann_cat_def vote_bob_cat_def

text \<open>
  Claim C3. When no matching vote exists, the effective limit is finite and the user's
  votes in the poll, GAME and CATEGORY together, have reached it, \<open>cast_vote\<close> returns a
  failed result whose message prints that count and the limit, and the table of votes is
  returned as it was.
\<close>

theorem cast_vote_limit_reached:
  assumes "filter (vote_matches pid uid vt target_id) votes = []"
    and "calculate_effective_limit VL math_log2 vote_limit game_count = Some limit"
    and "limit \<le> kind_count votes pid uid GAME + kind_count votes pid uid CATEGORY"
  shows "cast_vote VL math_log2 votes pid uid target_id vt uname vote_limit game_count
     = Inr (\<lparr>success = False,
             message = ''Vote limit reached (''
               @ str_int (kind_count votes pid uid GAME + kind_count votes pid uid CATEGORY)
               @ ''/'' @ str_int limit @ ''). Remove a vote first!'',
             is_removal = False\<rparr>, votes)"
  using cast_vote_limit [OF assms(1,2), of uname] assms(3)
  by (simp add: user_vote_count_kinds limit_message_def)

theorem cast_vote_limit_reached_witness:
  "filter (vote_matches ''p1'' 1 GAME 11) [vote_ann_game, vote_ann_cat, vote_bob_cat] = []
   \<and> calculate_effective_limit vl_example log2_exact 2 5 = Some 2
   \<and> 2 \<le> kind_count [vote_ann_game, vote_ann_cat, vote_bob_cat] ''p1'' 1 GAME
          + kind_count [vote_ann_game, vote_ann_cat, vote_bob_cat] ''p1'' 1 CATEGORY
   \<and> cast_vote vl_example log2_exact [vote_ann_game, vote_ann_cat, vote_bob_cat] ''p1'' 1 11 GAME ''ann'' 2 5
     = Inr (\<lparr>success = False, message = ''Vote limit reached (2/2). Remove a vote first!'',
             is_removal = False\<rparr>, [vote_ann_game, vote_ann_cat, vote_bob_cat])"
proof -
  let ?s = "[vote_ann_game, vote_ann_cat, vote_bob_cat]"
  have h1: "filter (vote_matches ''p1'' 1 GAME 11) ?s = []"
    by (simp add: example_votes vote_matches_def)
  have h2: "calculate_effective_limit vl_example log2_exact 2 5 = Some 2"
    by (simp add: calculate_effective_limit_def vl_example_def)
  have c: "kind_count ?s ''p1'' 1 GAME + kind_count ?s ''p1'' 1 CATEGORY = 2"
    by (simp add: example_votes kind_count_def)
  have h3: "2 \<le> kind_count ?s ''p1'' 1 GAME + kind_count ?s ''p1'' 1 CATEGORY"
    by (simp add: c)
  from cast_vote_limit_reached [OF h1 h2 h3, of "''ann''"] h1 h2 h3
  show ?thesis by (simp add: c str_int_def str_nat.simps digit_char_def)
qed

text \<open>
  Claim C6. After a successful cast that is not a removal, under a finite effective
  limit, the user's votes in the poll, GAME and CATEGORY together, do not exceed the limit.
\<close>

theorem cast_vote_within_limit:
  assumes "cast_vote VL math_log2 votes pid uid target_id vt uname vote_limit game_count = Inr (r, votes')"
    and "success r" and "\<not> is_removal r"
    and "calculate_effective_limit VL math_log2 vote_limit game_count = Some limit"
  shows "kind_count votes' pid uid GAME + kind_count votes' pid uid CATEGORY \<le> limit"
proof -
  have "user_vote_count (votes @ [new_vote pid uid vt uname target_id]) pid uid
      = user_vote_count votes pid uid + 1"
    by (simp add: user_vote_count_def new_vote_def)
  then have "user_vote_count votes' pid uid \<le> limit"
    using assms
    by (auto simp: cast_vote_def scalar_one_or_none_def split: list.splits if_splits)
  then show ?thesis by (simp add: user_vote_count_kinds)
qed

theorem cast_vote_within_limit_witness:
  "cast_vote vl_example log2_exact [vote_ann_game, vote_bob_cat] ''p1'' 1 3 CATEGORY ''ann'' 2 5
     = Inr (\<lparr>success = True,
             message = [CHR 0xF0, CHR 0x9F, CHR 0x8E, CHR 0xB2] @ '' Voted on Category 3!'',
             is_removal = False\<rparr>, [vote_ann_game, vote_bob_cat, vote_ann_cat])
   \<and> calculate_effective_limit vl_example log2_exact 2 5 = Some 2
   \<and> kind_count [vote_ann_game, vote_bob_cat, vote_ann_cat] ''p1'' 1 GAME
       + kind_count [vote_ann_game, vote_bob_cat, vote_ann_cat] ''p1'' 1 CATEGORY \<le> 2"
proof -
  have h1: "cast_vote vl_example log2_exact [vote_ann_game, vote_bob_cat] ''p1'' 1 3 CATEGORY ''ann'' 2 5
     = Inr (\<lparr>success = True,
             message = [CHR 0xF0, CHR 0x9F, CHR 0x8E, CHR 0xB2] @ '' Voted on Category 3!'',
             is_removal = False\<rparr>, [vote_ann_game, vote_bob_cat, vote_ann_cat])"
    by (simp add: cast_vote_def scalar_one_or_none_def example_votes vote_matches_def
        new_vote_def user_vote_count_def calculate_effective_limit_def vl_example_def
        voted_message_def str_int_def str_nat.simps digit_char_def)
  have h2: "calculate_effective_limit vl_example log2_exact 2 5 = Some 2"
    by (simp add: calculate_effective_limit_def vl_example_def)
  from cast_vote_within_limit [OF h1 _ _ h2] h1 h2 show ?thesis by simp
qed

lemma cast_vote_round_trip:
  assumes "filter (vote_matches pid uid vt target_id) votes = []"
  shows "cast_vote VL math_log2 (votes @ [new_vote pid uid vt uname target_id]) pid uid target_id vt uname'
            vote_limit game_count
     = Inr (\<lparr>success = True, message = ''Vote removed'', is_removal = True\<rparr>, votes)"
proof -
  let ?n = "new_vote pid uid vt uname target_id"
  have "filter (vote_matches pid uid vt target_id) (votes @ [?n]) = [?n]"
    using assms by (simp add: new_vote_matches)
  then have "cast_vote VL math_log2 (votes @ [?n]) pid uid target_id vt uname' vote_limit game_count
     = Inr (\<lparr>success = True, message = ''Vote removed'', is_removal = True\<rparr>,
            remove1 ?n (votes @ [?n]))"
    by (rule cast_vote_existing)
  moreover have "remove1 ?n (votes @ [?n]) = votes"
    using assms by (intro remove1_append_last no_match_not_member)
  ultimately show ?thesis by simp
qed

text \<open>
  Claim C4. On a well-formed table, a cast that finds a matching vote deletes it and
  returns success with \<open>is_removal\<close> set, after which no matching vote is left. Hence
  three successive casts of a vote that is absent and within the limit insert it, remove
  it (back to the first table) and insert it again.
\<close>

theorem cast_vote_toggle:
  assumes "unique_votes votes"
  shows "((\<exists>v\<in>set votes. vote_matches pid uid vt target_id v) \<longrightarrow>
      (\<exists>v. v \<in> set votes \<and> vote_matches pid uid vt target_id v
         \<and> cast_vote VL math_log2 votes pid uid target_id vt uname vote_limit game_count
             = Inr (\<lparr>success = True, message = ''Vote removed'', is_removal = True\<rparr>,
                    remove1 v votes)
         \<and> filter (vote_matches pid uid vt target_id) (remove1 v votes) = []))
    \<and> (filter (vote_matches pid uid vt target_id) votes = []
        \<and> (\<forall>limit. calculate_effective_limit VL math_log2 vote_limit game_count = Some limit
               \<longrightarrow> user_vote_count votes pid uid < limit) \<longrightarrow>
      (\<exists>r1 r2 r3 s1 s2 s3.
         cast_vote VL math_log2 votes pid uid target_id vt uname vote_limit game_count = Inr (r1, s1)
         \<and> cast_vote VL math_log2 s1 pid uid target_id vt uname vote_limit game_count = Inr (r2, s2)
         \<and> cast_vote VL math_log2 s2 pid uid target_id vt uname vote_limit game_count = Inr (r3, s3)
         \<and> success r1 \<and> \<not> is_removal r1 \<and> s1 = votes @ [new_vote pid uid vt uname target_id]
         \<and> success r2 \<and> is_removal r2 \<and> s2 = votes
         \<and> success r3 \<and> \<not> is_removal r3 \<and> s3 = votes @ [new_vote pid uid vt uname target_id]))"
proof (intro conjI impI)
  assume "\<exists>v\<in>set votes. vote_matches pid uid vt target_id v"
  then obtain v where v: "v \<in> set votes" "vote_matches pid uid vt target_id v" by blast
  with assms have f: "filter (vote_matches pid uid vt target_id) votes = [v]"
    by (rule unique_match_single)
  have "filter (vote_matches pid uid vt target_id) (remove1 v votes)
      = remove1 v (filter (vote_matches pid uid vt target_id) votes)"
    by (rule filter_remove1)
  then have "filter (vote_matches pid uid vt target_id) (remove1 v votes) = []"
    by (simp add: f)
  with v cast_vote_existing [OF f]
  show "\<exists>v. v \<in> set votes \<and> vote_matches pid uid vt target_id v
         \<and> cast_vote VL math_log2 votes pid uid target_id vt uname vote_limit game_count
             = Inr (\<lparr>success = True, message = ''Vote removed'', is_removal = True\<rparr>,
                    remove1 v votes)
         \<and> filter (vote_matches pid uid vt target_id) (remove1 v votes) = []"
    by blast
next
  assume a: "filter (vote_matches pid uid vt target_id) votes = []
        \<and> (\<forall>limit. calculate_effective_limit VL math_log2 vote_limit game_count = Some limit
               \<longrightarrow> user_vote_count votes pid uid < limit)"
  let ?n = "new_vote pid uid vt uname target_id"
  let ?r = "\<lparr>success = True, message = voted_message vt target_id, is_removal = False\<rparr>"
  let ?d = "\<lparr>success = True, message = ''Vote removed'', is_removal = True\<rparr>"
  have c1: "cast_vote VL math_log2 votes pid uid target_id vt uname vote_limit game_count
      = Inr (?r, votes @ [?n])"
    using a by (intro cast_vote_insert) auto
  have c2: "cast_vote VL math_log2 (votes @ [?n]) pid uid target_id vt uname vote_limit game_count
      = Inr (?d, votes)"
    using a by (intro cast_vote_round_trip) auto
  show "\<exists>r1 r2 r3 s1 s2 s3.
         cast_vote VL math_log2 votes pid uid target_id vt uname vote_limit game_count = Inr (r1, s1)
         \<and> cast_vote VL math_log2 s1 pid uid target_id vt uname vote_limit game_count = Inr (r2, s2)
         \<and> cast_vote VL math_log2 s2 pid uid target_id vt uname vote_limit game_count = Inr (r3, s3)
         \<and> success r1 \<and> \<not> is_removal r1 \<and> s1 = votes @ [new_vote pid uid vt uname target_id]
         \<and> success r2 \<and> is_removal r2 \<and> s2 = votes
         \<and> success r3 \<and> \<not> is_removal r3 \<and> s3 = votes @ [new_vote pid uid vt uname target_id]"
    by (rule exI [of _ ?r], rule exI [of _ ?d], rule exI [of _ ?r],
        rule exI [of _ "votes @ [?n]"], rule exI [of _ votes], rule exI [of _ "votes @ [?n]"])
       (simp add: c1 c2)
qed

text \<open>
  Claim C10. A configured limit that is neither sentinel is returned unchanged, whatever
  its sign. When 0 is not a sentinel, a limit of 0 makes every cast of a vote that does
  not exist yet fail with the limit message, while a cast that finds the vote still
  removes it: the lookup comes before the limit.
\<close>

theorem limit_zero_and_unvalidated:
  assumes "unique_votes votes"
  shows "(vote_limit \<noteq> AUTO VL \<and> vote_limit \<noteq> UNLIMITED VL \<longrightarrow>
       calculate_effective_limit VL math_log2 vote_limit game_count = Some vote_limit)
    \<and> (0 \<noteq> AUTO VL \<and> 0 \<noteq> UNLIMITED VL
        \<and> filter (vote_matches pid uid vt target_id) votes = [] \<longrightarrow>
       cast_vote VL math_log2 votes pid uid target_id vt uname 0 game_count
         = Inr (\<lparr>success = False,
                 message = ''Vote limit reached ('' @ str_int (user_vote_count votes pid uid)
                            @ ''/0). Remove a vote first!'',
                 is_removal = False\<rparr>, votes))
    \<and> (v \<in> set votes \<and> vote_matches pid uid vt target_id v \<longrightarrow>
       cast_vote VL math_log2 votes pid uid target_id vt uname 0 game_count
         = Inr (\<lparr>success = True, message = ''Vote removed'', is_removal = True\<rparr>,
                remove1 v votes))"
proof (intro conjI impI)
  assume "vote_limit \<noteq> AUTO VL \<and> vote_limit \<noteq> UNLIMITED VL"
  then show "calculate_effective_limit VL math_log2 vote_limit game_count = Some vote_limit"
    by (simp add: calculate_effective_limit_def)
next
  assume a: "0 \<noteq> AUTO VL \<and> 0 \<noteq> UNLIMITED VL
        \<and> filter (vote_matches pid uid vt target_id) votes = []"
  then have l: "calculate_effective_limit VL math_log2 0 game_count = Some 0"
    by (simp add: calculate_effective_limit_def)
  have "0 \<le> user_vote_count votes pid uid" by (simp add: user_vote_count_def)
  with a l have "cast_vote VL math_log2 votes pid uid target_id vt uname 0 game_count
     = Inr (\<lparr>success = False, message = limit_message (user_vote_count votes pid uid) 0,
             is_removal = False\<rparr>, votes)"
    by (intro cast_vote_limit) auto
  then show "cast_vote VL math_log2 votes pid uid target_id vt uname 0 game_count
         = Inr (\<lparr>success = False,
                 message = ''Vote limit reached ('' @ str_int (user_vote_count votes pid uid)
                            @ ''/0). Remove a vote first!'',
                 is_removal = False\<rparr>, votes)"
    by (simp add: limit_message_def str_int_def str_nat.simps digit_char_def)
next
  assume "v \<in> set votes \<and> vote_matches pid uid vt target_id v"
  with assms have "filter (vote_matches pid uid vt target_id) votes = [v]"
    by (intro unique_match_single) auto
  then show "cast_vote VL math_log2 votes pid uid target_id vt uname 0 game_count
         = Inr (\<lparr>success = True, message = ''Vote removed'', is_removal = True\<rparr>,
                remove1 v votes)"
    by (rule cast_vote_existing)
qed

lemma example_store_unique:
  "unique_votes [vote_ann_game, vote_bob_cat]"
  "unique_votes [vote_ann_game, vote_bob_cat, vote_ann_cat]"
  by (simp_all add: unique_votes_def vote_key_def example_votes)

lemma example_new_vote: "new_vote ''p1'' 1 CATEGORY ''ann'' 3 = vote_ann_cat"
  by (simp add: new_vote_def vote_ann_cat_def)

lemma example_limit: "calculate_effective_limit vl_example log2_exact 2 5 = Some 2"
  by (simp add: calculate_effective_limit_def vl_example_def)

lemma example_no_match:
  "filter (vote_matches ''p1'' 1 CATEGORY 3) [vote_ann_game, vote_bob_cat] = []"
  by (simp add: vote_matches_def example_votes)

lemma example_count: "user_vote_count [vote_ann_game, vote_bob_cat] ''p1'' 1 = 1"
  by (simp add: user_vote_count_def example_votes)

theorem cast_vote_toggle_witness:
  "unique_votes [vote_ann_game, vote_bob_cat]
   \<and> filter (vote_matches ''p1'' 1 CATEGORY 3) [vote_ann_game, vote_bob_cat] = []
   \<and> calculate_effective_limit vl_example log2_exact 2 5 = Some 2
   \<and> user_vote_count [vote_ann_game, vote_bob_cat] ''p1'' 1 < 2
   \<and> (\<exists>r1 r2 r3.
        cast_vote vl_example log2_exact [vote_ann_game, vote_bob_cat] ''p1'' 1 3 CATEGORY ''ann'' 2 5
          = Inr (r1, [vote_ann_game, vote_bob_cat, vote_ann_cat])
        \<and> cast_vote vl_example log2_exact [vote_ann_game, vote_bob_cat, vote_ann_cat] ''p1'' 1 3 CATEGORY ''ann'' 2 5
          = Inr (r2, [vote_ann_game, vote_bob_cat])
        \<and> cast_vote vl_example log2_exact [vote_ann_game, vote_bob_cat] ''p1'' 1 3 CATEGORY ''ann'' 2 5
          = Inr (r3, [vote_ann_game, vote_bob_cat, vote_ann_cat])
        \<and> success r1 \<and> \<not> is_removal r1 \<and> success r2 \<and> is_removal r2
        \<and> success r3 \<and> \<not> is_removal r3)
   \<and> unique_votes [vote_ann_game, vote_bob_cat, vote_ann_cat]
   \<and> vote_ann_cat \<in> set [vote_ann_game, vote_bob_cat, vote_ann_cat]
   \<and> vote_matches ''p1'' 1 CATEGORY 3 vote_ann_cat
   \<and> cast_vote vl_example log2_exact [vote_ann_game, vote_bob_cat, vote_ann_cat] ''p1'' 1 3 CATEGORY ''ann'' 2 5
        = Inr (\<lparr>success = True, message = ''Vote removed'', is_removal = True\<rparr>,
               [vote_ann_game, vote_bob_cat])"
proof -
  let ?A = "[vote_ann_game, vote_bob_cat]"
  let ?B = "[vote_ann_game, vote_bob_cat, vote_ann_cat]"
  have pre: "filter (vote_matches ''p1'' 1 CATEGORY 3) ?A = []
        \<and> (\<forall>limit. calculate_effective_limit vl_example log2_exact 2 5 = Some limit
               \<longrightarrow> user_vote_count ?A ''p1'' 1 < limit)"
    using example_no_match by (simp only: example_limit example_count) simp
  have three: "\<exists>r1 r2 r3.
        cast_vote vl_example log2_exact ?A ''p1'' 1 3 CATEGORY ''ann'' 2 5 = Inr (r1, ?B)
        \<and> cast_vote vl_example log2_exact ?B ''p1'' 1 3 CATEGORY ''ann'' 2 5 = Inr (r2, ?A)
        \<and> cast_vote vl_example log2_exact ?A ''p1'' 1 3 CATEGORY ''ann'' 2 5 = Inr (r3, ?B)
        \<and> success r1 \<and> \<not> is_removal r1 \<and> success r2 \<and> is_removal r2
        \<and> success r3 \<and> \<not> is_removal r3"
    using cast_vote_toggle [OF example_store_unique(1),
        of "''p1''" 1 CATEGORY 3 vl_example log2_exact "''ann''" 2 5, THEN conjunct2, THEN mp, OF pre]
    by (auto simp: example_new_vote)
  have m: "vote_ann_cat \<in> set ?B" "vote_matches ''p1'' 1 CATEGORY 3 vote_ann_cat"
    by (simp_all add: vote_matches_def example_votes)
  have "\<exists>v\<in>set ?B. vote_matches ''p1'' 1 CATEGORY 3 v" using m by blast
  with cast_vote_toggle [OF example_store_unique(2),
        of "''p1''" 1 CATEGORY 3 vl_example log2_exact "''ann''" 2 5]
  obtain v where v: "v \<in> set ?B" "vote_matches ''p1'' 1 CATEGORY 3 v"
     "cast_vote vl_example log2_exact ?B ''p1'' 1 3 CATEGORY ''ann'' 2 5
        = Inr (\<lparr>success = True, message = ''Vote removed'', is_removal = True\<rparr>, remove1 v ?B)"
    by blast
  from v(1,2) have "v = vote_ann_cat"
    by (auto simp: vote_matches_def example_votes)
  with v(3) have rem: "cast_vote vl_example log2_exact ?B ''p1'' 1 3 CATEGORY ''ann'' 2 5
        = Inr (\<lparr>success = True, message = ''Vote removed'', is_removal = True\<rparr>, ?A)"
    by (simp add: example_votes)
  show ?thesis
    using three m rem example_store_unique example_no_match example_limit
    by (simp only: example_count) simp
qed

theorem limit_zero_and_unvalidated_witness:
  "unique_votes [vote_ann_game, vote_bob_cat, vote_ann_cat]
   \<and> (- 5) \<noteq> AUTO vl_example \<and> (- 5) \<noteq> UNLIMITED vl_example
   \<and> calculate_effective_limit vl_example log2_exact (- 5) 5 = Some (- 5)
   \<and> 0 \<noteq> AUTO vl_example \<and> 0 \<noteq> UNLIMITED vl_example
   \<and> filter (vote_matches ''p1'' 2 GAME 10) [vote_ann_game, vote_bob_cat, vote_ann_cat] = []
   \<and> cast_vote vl_example log2_exact [vote_ann_game, vote_bob_cat, vote_ann_cat] ''p1'' 2 10 GAME ''bob'' 0 5
        = Inr (\<lparr>success = False, message = ''Vote limit reached (1/0). Remove a vote first!'',
                is_removal = False\<rparr>, [vote_ann_game, vote_bob_cat, vote_ann_cat])
   \<and> vote_bob_cat \<in> set [vote_ann_game, vote_bob_cat, vote_ann_cat]
   \<and> vote_matches ''p1'' 2 CATEGORY 3 vote_bob_cat
   \<and> cast_vote vl_example log2_exact [vote_ann_game, vote_bob_cat, vote_ann_cat] ''p1'' 2 3 CATEGORY ''bob'' 0 5
        = Inr (\<lparr>success = True, message = ''Vote removed'', is_removal = True\<rparr>,
               [vote_ann_game, vote_ann_cat])"
proof -
  let ?B = "[vote_ann_game, vote_bob_cat, vote_ann_cat]"
  note u = example_store_unique(2)
  have s: "(- 5) \<noteq> AUTO vl_example \<and> (- 5) \<noteq> UNLIMITED vl_example"
    "0 \<noteq> AUTO vl_example \<and> 0 \<noteq> UNLIMITED vl_example"
    by (simp_all add: vl_example_def)
  have f: "filter (vote_matches ''p1'' 2 GAME 10) ?B = []"
    by (simp add: vote_matches_def example_votes)
  have c: "user_vote_count ?B ''p1'' 2 = 1"
    by (simp add: user_vote_count_def example_votes)
  have m: "vote_bob_cat \<in> set ?B \<and> vote_matches ''p1'' 2 CATEGORY 3 vote_bob_cat"
    by (simp add: vote_matches_def example_votes)
  have r: "remove1 vote_bob_cat ?B = [vote_ann_game, vote_ann_cat]"
    by (simp add: example_votes)
  from limit_zero_and_unvalidated [OF u, of "- 5" vl_example log2_exact 5 "''p1''" 2 GAME 10 "''bob''" vote_bob_cat]
    limit_zero_and_unvalidated [OF u, of 0 vl_example log2_exact 5 "''p1''" 2 CATEGORY 3 "''bob''" vote_bob_cat]
    s f m
  show ?thesis
    by (simp add: u c r str_int_def str_nat.simps digit_char_def)
qed

subsection \<open>Facts about the category resolver\<close>

lemma dict_get_groups:
  "dict_get (group_games_by_complexity games) key
     = (case key of None \<Rightarrow> [] | Some level \<Rightarrow> filter (\<lambda>g. g_complexity g = level) games)"
  by (simp add: dict_get_def group_games_by_complexity_def split: option.splits)

lemma groups_subset: "set (dict_get (group_games_by_complexity games) key) \<subseteq> set games"
  by (auto simp: dict_get_groups split: option.splits)

lemma groups_nonempty_iff:
  "dict_get (group_games_by_complexity games) key \<noteq> [] \<longleftrightarrow> level_has_game games key"
  by (auto simp: dict_get_groups level_has_game_def filter_empty_conv split: option.splits)

lemma random_choice_member:
  "seq \<noteq> [] \<Longrightarrow> \<exists>g. random_choice rnd k seq = Inr (g, Suc k) \<and> g \<in> set seq"
  by (simp add: random_choice_def)

text \<open>The first loop never fails; it keeps what was resolved and adds members of the groups.\<close>

lemma choose_categories_total:
  "\<exists>res k'. choose_categories groups rnd vs res0 k = Inr (res, k')
     \<and> (\<forall>level. res level \<noteq> None \<longleftrightarrow>
           res0 level \<noteq> None
           \<or> (dict_get groups level \<noteq> []
               \<and> level \<in> set (map category_level (filter (\<lambda>v. vote_type v = CATEGORY) vs))))
     \<and> (\<forall>level g. res level = Some g \<longrightarrow> res0 level = Some g \<or> g \<in> set (dict_get groups level))"
proof (induction vs arbitrary: res0 k)
  case Nil
  show ?case by simp
next
  case (Cons v vs)
  show ?case
  proof (cases "vote_type v = CATEGORY \<and> res0 (category_level v) = None
         \<and> dict_get groups (category_level v) \<noteq> []")
    case True
    then obtain g where g: "random_choice rnd k (dict_get groups (category_level v)) = Inr (g, Suc k)"
      "g \<in> set (dict_get groups (category_level v))"
      using random_choice_member by blast
    from Cons.IH [of "res0(category_level v \<mapsto> g)" "Suc k"]
    obtain res k' where r:
      "choose_categories groups rnd vs (res0(category_level v \<mapsto> g)) (Suc k) = Inr (res, k')"
      "\<forall>level. res level \<noteq> None \<longleftrightarrow>
           (res0(category_level v \<mapsto> g)) level \<noteq> None
           \<or> (dict_get groups level \<noteq> []
               \<and> level \<in> set (map category_level (filter (\<lambda>v. vote_type v = CATEGORY) vs)))"
      "\<forall>level g'. res level = Some g' \<longrightarrow>
           (res0(category_level v \<mapsto> g)) level = Some g' \<or> g' \<in> set (dict_get groups level)"
      by blast
    have c: "choose_categories groups rnd (v # vs) res0 k = Inr (res, k')"
      using True g(1) r(1) by simp
    have d: "\<forall>level. res level \<noteq> None \<longleftrightarrow>
           res0 level \<noteq> None
           \<or> (dict_get groups level \<noteq> []
               \<and> level \<in> set (map category_level (filter (\<lambda>v. vote_type v = CATEGORY) (v # vs))))"
      using r(2) True by (auto split: if_splits)
    have m: "\<forall>level g'. res level = Some g' \<longrightarrow>
           res0 level = Some g' \<or> g' \<in> set (dict_get groups level)"
      using r(3) g(2) by (auto split: if_splits)
    from c d m show ?thesis by blast
  next
    case False
    from Cons.IH [of res0 k]
    obtain res k' where r:
      "choose_categories groups rnd vs res0 k = Inr (res, k')"
      "\<forall>level. res level \<noteq> None \<longleftrightarrow>
           res0 level \<noteq> None
           \<or> (dict_get groups level \<noteq> []
               \<and> level \<in> set (map category_level (filter (\<lambda>v. vote_type v = CATEGORY) vs)))"
      "\<forall>level g'. res level = Some g' \<longrightarrow>
           res0 level = Some g' \<or> g' \<in> set (dict_get groups level)"
      by blast
    have c: "choose_categories groups rnd (v # vs) res0 k = Inr (res, k')"
      using False r(1) by auto
    have d: "\<forall>level. res level \<noteq> None \<longleftrightarrow>
           res0 level \<noteq> None
           \<or> (dict_get groups level \<noteq> []
               \<and> level \<in> set (map category_level (filter (\<lambda>v. vote_type v = CATEGORY) (v # vs))))"
      using r(2) False by auto
    from c d r(3) show ?thesis by blast
  qed
qed

lemmas example_games = game_catan_def game_wingspan_def game_gloomhaven_def

lemmas example_poll = vote_ann_catan_def vote_bob_cat1_def vote_cy_cat1_def vote_dee_cat7_def

lemmas resolve_eval = resolve_category_votes_def dict_get_def group_games_by_complexity_def
  random_choice_def rnd_const_def

lemma resolve_category_votes_char:
  "\<exists>res. resolve_category_votes rnd k all_votes valid_games
            = Inr (build_resolved_votes res all_votes)
     \<and> (\<forall>level. res level \<noteq> None \<longleftrightarrow>
           level_has_game valid_games level
           \<and> level \<in> set (map category_level (filter (\<lambda>v. vote_type v = CATEGORY) all_votes)))
     \<and> (\<forall>level g. res level = Some g \<longrightarrow>
           g \<in> set (dict_get (group_games_by_complexity valid_games) level))"
proof -
  from choose_categories_total
    [of "group_games_by_complexity valid_games" rnd all_votes Map.empty k]
  obtain res k' where r:
    "choose_categories (group_games_by_complexity valid_games) rnd all_votes Map.empty k
       = Inr (res, k')"
    "\<forall>level. res level \<noteq> None \<longleftrightarrow>
        Map.empty level \<noteq> (None :: Game option)
        \<or> (dict_get (group_games_by_complexity valid_games) level \<noteq> []
            \<and> level \<in> set (map category_level (filter (\<lambda>v. vote_type v = CATEGORY) all_votes)))"
    "\<forall>level g. res level = Some g \<longrightarrow>
        Map.empty level = Some g
        \<or> g \<in> set (dict_get (group_games_by_complexity valid_games) level)"
    by blast
  have "resolve_category_votes rnd k all_votes valid_games
          = Inr (build_resolved_votes res all_votes)"
    by (simp add: resolve_category_votes_def r(1))
  moreover have "\<forall>level. res level \<noteq> None \<longleftrightarrow>
           level_has_game valid_games level
           \<and> level \<in> set (map category_level (filter (\<lambda>v. vote_type v = CATEGORY) all_votes))"
    using r(2) by (simp add: groups_nonempty_iff)
  moreover have "\<forall>level g. res level = Some g \<longrightarrow>
           g \<in> set (dict_get (group_games_by_complexity valid_games) level)"
    using r(3) by simp
  ultimately show ?thesis by blast
qed

lemma build_resolved_votes_concat:
  "build_resolved_votes res vs = concat (map (\<lambda>v. build_resolved_votes res [v]) vs)"
  by (induction vs) (auto split: option.splits)

lemma build_resolved_votes_ids:
  "r \<in> set (build_resolved_votes res vs) \<Longrightarrow>
     (\<exists>g level. res level = Some g \<and> rv_game_id r = Some (g_id g))
     \<or> rv_game_id r \<in> set (map game_id (filter (\<lambda>v. vote_type v = GAME) vs))"
  by (induction vs) (auto split: option.splits if_splits)

lemma build_resolved_votes_length:
  assumes "\<And>v. v \<in> set vs \<Longrightarrow> vote_type v = CATEGORY \<Longrightarrow>
             (res (category_level v) \<noteq> None \<longleftrightarrow> P (category_level v))"
  shows "length (build_resolved_votes res vs)
     = length (filter (\<lambda>v. vote_type v = GAME) vs)
       + length (filter (\<lambda>v. vote_type v = CATEGORY \<and> P (category_level v)) vs)"
  using assms
proof (induction vs)
  case Nil
  show ?case by simp
next
  case (Cons v vs)
  then have ih: "length (build_resolved_votes res vs)
     = length (filter (\<lambda>v. vote_type v = GAME) vs)
       + length (filter (\<lambda>v. vote_type v = CATEGORY \<and> P (category_level v)) vs)"
    by simp
  show ?case
  proof (cases "vote_type v")
    case GAME
    then show ?thesis using ih by simp
  next
    case CATEGORY
    then have "res (category_level v) \<noteq> None \<longleftrightarrow> P (category_level v)"
      using Cons.prems by simp
    then show ?thesis using ih CATEGORY by (auto split: option.splits)
  qed
qed

lemma build_resolved_votes_filter:
  assumes "\<And>v. v \<in> set vs \<Longrightarrow> \<not> keep v \<Longrightarrow>
             vote_type v = CATEGORY \<and> res (category_level v) = None"
  shows "build_resolved_votes res (filter keep vs) = build_resolved_votes res vs"
  using assms by (induction vs) (auto split: option.splits)

lemma choose_categories_filter:
  assumes "\<And>v. v \<in> set vs \<Longrightarrow> \<not> keep v \<Longrightarrow>
             vote_type v = CATEGORY \<and> dict_get groups (category_level v) = []"
  shows "choose_categories groups rnd (filter keep vs) res0 k
     = choose_categories groups rnd vs res0 k"
  using assms
proof (induction vs arbitrary: res0 k)
  case Nil
  show ?case by simp
next
  case (Cons v vs)
  then have ih: "\<And>res0 k. choose_categories groups rnd (filter keep vs) res0 k
     = choose_categories groups rnd vs res0 k"
    by simp
  show ?case
  proof (cases "keep v")
    case True
    then show ?thesis using ih by (simp split: sum.splits)
  next
    case False
    then have "dict_get groups (category_level v) = []" using Cons.prems by simp
    then show ?thesis using False ih by simp
  qed
qed

text \<open>
  Claim C1 does not hold as stated: a GAME vote is passed through with its \<open>game_id\<close>
  whether or not that game is a candidate. Ann's vote for game 10 is resolved to game 10,
  which is not in the candidate list.
\<close>

theorem resolved_votes_reference_candidates_counterexample:
  "resolve_category_votes (rnd_const 0) 0 [vote_ann_game] [game_catan, game_wingspan, game_gloomhaven]
     = Inr [ResolvedVote (Some 10) 1]
   \<and> 10 \<notin> set (map g_id [game_catan, game_wingspan, game_gloomhaven])"
  by (simp add: resolve_category_votes_def vote_ann_game_def example_games)

text \<open>
  Claim C1, amended. The resolver always returns, and every resolved vote references a
  candidate game or carries the \<open>game_id\<close> of a GAME vote of the input unchanged. So
  every resolved vote references a candidate game when every GAME vote does.
\<close>

theorem resolved_votes_candidates_or_game_votes:
  "\<exists>out. resolve_category_votes rnd k all_votes valid_games = Inr out
     \<and> (\<forall>r\<in>set out.
           rv_game_id r \<in> set (map (\<lambda>g. Some (g_id g)) valid_games)
           \<or> rv_game_id r \<in> set (map game_id (filter (\<lambda>v. vote_type v = GAME) all_votes)))
     \<and> ((\<forall>v\<in>set all_votes. vote_type v = GAME \<longrightarrow>
             game_id v \<in> set (map (\<lambda>g. Some (g_id g)) valid_games))
          \<longrightarrow> (\<forall>r\<in>set out. rv_game_id r \<in> set (map (\<lambda>g. Some (g_id g)) valid_games)))"
proof -
  from resolve_category_votes_char [of rnd k all_votes valid_games]
  obtain res where r:
    "resolve_category_votes rnd k all_votes valid_games = Inr (build_resolved_votes res all_votes)"
    "\<forall>level g. res level = Some g \<longrightarrow>
        g \<in> set (dict_get (group_games_by_complexity valid_games) level)"
    by blast
  have cand: "\<And>level g. res level = Some g \<Longrightarrow> g \<in> set valid_games"
    using r(2) groups_subset by blast
  have a: "\<forall>r\<in>set (build_resolved_votes res all_votes).
           rv_game_id r \<in> set (map (\<lambda>g. Some (g_id g)) valid_games)
           \<or> rv_game_id r \<in> set (map game_id (filter (\<lambda>v. vote_type v = GAME) all_votes))"
  proof
    fix x assume "x \<in> set (build_resolved_votes res all_votes)"
    from build_resolved_votes_ids [OF this] cand
    show "rv_game_id x \<in> set (map (\<lambda>g. Some (g_id g)) valid_games)
           \<or> rv_game_id x \<in> set (map game_id (filter (\<lambda>v. vote_type v = GAME) all_votes))"
      by auto
  qed
  have b: "(\<forall>v\<in>set all_votes. vote_type v = GAME \<longrightarrow>
             game_id v \<in> set (map (\<lambda>g. Some (g_id g)) valid_games))
          \<longrightarrow> (\<forall>r\<in>set (build_resolved_votes res all_votes).
                 rv_game_id r \<in> set (map (\<lambda>g. Some (g_id g)) valid_games))"
    using a by auto
  from r(1) a b show ?thesis by blast
qed

theorem resolved_votes_candidates_or_game_votes_witness:
  "resolve_category_votes (rnd_const 1) 0 [vote_ann_catan, vote_bob_cat1, vote_cy_cat1]
       [game_catan, game_wingspan, game_gloomhaven]
     = Inr [ResolvedVote (Some 1) 1, ResolvedVote (Some 2) 2, ResolvedVote (Some 2) 3]
   \<and> vote_type vote_ann_catan = GAME
   \<and> game_id vote_ann_catan \<in> set (map (\<lambda>g. Some (g_id g)) [game_catan, game_wingspan, game_gloomhaven])
   \<and> rv_game_id (ResolvedVote (Some 1) 1)
       \<in> set (map (\<lambda>g. Some (g_id g)) [game_catan, game_wingspan, game_gloomhaven])
   \<and> rv_game_id (ResolvedVote (Some 2) 2)
       \<in> set (map (\<lambda>g. Some (g_id g)) [game_catan, game_wingspan, game_gloomhaven])
   \<and> rv_game_id (ResolvedVote (Some 2) 3)
       \<in> set (map (\<lambda>g. Some (g_id g)) [game_catan, game_wingspan, game_gloomhaven])"
proof -
  let ?vs = "[vote_ann_catan, vote_bob_cat1, vote_cy_cat1]"
  let ?gs = "[game_catan, game_wingspan, game_gloomhaven]"
  have e: "resolve_category_votes (rnd_const 1) 0 ?vs ?gs
     = Inr [ResolvedVote (Some 1) 1, ResolvedVote (Some 2) 2, ResolvedVote (Some 2) 3]"
    by (simp add: resolve_eval example_poll example_games)
  have h: "\<forall>v\<in>set ?vs. vote_type v = GAME \<longrightarrow>
             game_id v \<in> set (map (\<lambda>g. Some (g_id g)) ?gs)"
    by (simp add: example_poll example_games)
  from resolved_votes_candidates_or_game_votes [of "rnd_const 1" 0 ?vs ?gs] e h
  have "\<forall>r\<in>set [ResolvedVote (Some 1) 1, ResolvedVote (Some 2) 2, ResolvedVote (Some 2) 3].
          rv_game_id r \<in> set (map (\<lambda>g. Some (g_id g)) ?gs)"
    by auto
  then show ?thesis using e by (simp add: example_poll)
qed

text \<open>
  Claim C5. One map from levels to games, fixed for the invocation, determines the whole
  output: each vote contributes what the second loop makes of it under that map. A level
  has a representative exactly when it was voted for and its group is not empty, the
  representative is a member of the level's group, and two CATEGORY votes on the same
  level, by whichever users, are resolved to the same game.
\<close>

theorem same_level_same_game:
  "\<exists>category_resolutions.
     resolve_category_votes rnd k all_votes valid_games
       = Inr (concat (map (\<lambda>v. build_resolved_votes category_resolutions [v]) all_votes))
     \<and> (\<forall>level. category_resolutions level \<noteq> None \<longleftrightarrow>
           dict_get (group_games_by_complexity valid_games) level \<noteq> []
           \<and> level \<in> set (map category_level (filter (\<lambda>v. vote_type v = CATEGORY) all_votes)))
     \<and> (\<forall>level g. category_resolutions level = Some g \<longrightarrow>
           g \<in> set (dict_get (group_games_by_complexity valid_games) level))
     \<and> (\<forall>v1 v2. vote_type v1 = CATEGORY \<and> vote_type v2 = CATEGORY
           \<and> category_level v1 = category_level v2 \<longrightarrow>
           map rv_game_id (build_resolved_votes category_resolutions [v1])
             = map rv_game_id (build_resolved_votes category_resolutions [v2]))"
proof -
  from resolve_category_votes_char [of rnd k all_votes valid_games]
  obtain res where r:
    "resolve_category_votes rnd k all_votes valid_games = Inr (build_resolved_votes res all_votes)"
    "\<forall>level. res level \<noteq> None \<longleftrightarrow>
           level_has_game valid_games level
           \<and> level \<in> set (map category_level (filter (\<lambda>v. vote_type v = CATEGORY) all_votes))"
    "\<forall>level g. res level = Some g \<longrightarrow>
        g \<in> set (dict_get (group_games_by_complexity valid_games) level)"
    by blast
  have "resolve_category_votes rnd k all_votes valid_games
       = Inr (concat (map (\<lambda>v. build_resolved_votes res [v]) all_votes))"
    using r(1) build_resolved_votes_concat [of res all_votes] by simp
  moreover have "\<forall>v1 v2. vote_type v1 = CATEGORY \<and> vote_type v2 = CATEGORY
           \<and> category_level v1 = category_level v2 \<longrightarrow>
           map rv_game_id (build_resolved_votes res [v1])
             = map rv_game_id (build_resolved_votes res [v2])"
    by (auto split: option.splits)
  moreover have "\<forall>level. res level \<noteq> None \<longleftrightarrow>
           dict_get (group_games_by_complexity valid_games) level \<noteq> []
           \<and> level \<in> set (map category_level (filter (\<lambda>v. vote_type v = CATEGORY) all_votes))"
    using r(2) by (simp add: groups_nonempty_iff)
  ultimately show ?thesis using r(3) by blast
qed

theorem same_level_same_game_witness:
  "vote_type vote_bob_cat1 = CATEGORY \<and> vote_type vote_cy_cat1 = CATEGORY
   \<and> category_level vote_bob_cat1 = category_level vote_cy_cat1
   \<and> (\<forall>rnd. \<exists>g. g \<in> set [game_catan, game_wingspan]
        \<and> resolve_category_votes rnd 0 [vote_bob_cat1, vote_cy_cat1]
             [game_catan, game_wingspan, game_gloomhaven]
           = Inr [ResolvedVote (Some (g_id g)) 2, ResolvedVote (Some (g_id g)) 3])"
proof -
  let ?vs = "[vote_bob_cat1, vote_cy_cat1]"
  let ?gs = "[game_catan, game_wingspan, game_gloomhaven]"
  have grp: "dict_get (group_games_by_complexity ?gs) (Some 1) = [game_catan, game_wingspan]"
    by (simp add: dict_get_groups example_games)
  have lv: "Some 1 \<in> set (map category_level (filter (\<lambda>v. vote_type v = CATEGORY) ?vs))"
    by (simp add: example_poll)
  have "\<exists>g. g \<in> set [game_catan, game_wingspan]
        \<and> resolve_category_votes rnd 0 ?vs ?gs
           = Inr [ResolvedVote (Some (g_id g)) 2, ResolvedVote (Some (g_id g)) 3]" for rnd
  proof -
    from same_level_same_game [of rnd 0 ?vs ?gs]
    obtain res where r:
      "resolve_category_votes rnd 0 ?vs ?gs
         = Inr (concat (map (\<lambda>v. build_resolved_votes res [v]) ?vs))"
      "\<forall>level. res level \<noteq> None \<longleftrightarrow>
           dict_get (group_games_by_complexity ?gs) level \<noteq> []
           \<and> level \<in> set (map category_level (filter (\<lambda>v. vote_type v = CATEGORY) ?vs))"
      "\<forall>level g. res level = Some g \<longrightarrow>
           g \<in> set (dict_get (group_games_by_complexity ?gs) level)"
      by blast
    from r(2) grp lv have "res (Some 1) \<noteq> None" by simp
    then obtain g where g: "res (Some 1) = Some g" by blast
    with r(3) grp have "g \<in> set [game_catan, game_wingspan]" by metis
    moreover have "resolve_category_votes rnd 0 ?vs ?gs
           = Inr [ResolvedVote (Some (g_id g)) 2, ResolvedVote (Some (g_id g)) 3]"
      using r(1) g by (simp add: example_poll)
    ultimately show ?thesis by blast
  qed
  then show ?thesis by (simp add: example_poll)
qed

text \<open>
  Claim C7. The resolver raises no error. Its output has one resolved vote per GAME vote
  and per CATEGORY vote whose level has a candidate game; CATEGORY votes on a level
  without candidate games contribute nothing: removing them from the input leaves the
  output as it is.
\<close>

theorem empty_category_votes_dropped:
  "\<exists>out. resolve_category_votes rnd k all_votes valid_games = Inr out
     \<and> length out
         = length (filter (\<lambda>v. vote_type v = GAME) all_votes)
           + length (filter (\<lambda>v. vote_type v = CATEGORY
                                \<and> level_has_game valid_games (category_level v)) all_votes)
     \<and> resolve_category_votes rnd k
         (filter (\<lambda>v. \<not> (vote_type v = CATEGORY
                         \<and> \<not> level_has_game valid_games (category_level v))) all_votes)
         valid_games = Inr out"
proof -
  let ?keep = "\<lambda>v. \<not> (vote_type v = CATEGORY \<and> \<not> level_has_game valid_games (category_level v))"
  let ?G = "group_games_by_complexity valid_games"
  from choose_categories_total [of ?G rnd all_votes Map.empty k]
  obtain res k' where r:
    "choose_categories ?G rnd all_votes Map.empty k = Inr (res, k')"
    "\<forall>level. res level \<noteq> None \<longleftrightarrow>
        Map.empty level \<noteq> (None :: Game option)
        \<or> (dict_get ?G level \<noteq> []
            \<and> level \<in> set (map category_level (filter (\<lambda>v. vote_type v = CATEGORY) all_votes)))"
    by blast
  have dom: "res (category_level v) \<noteq> None \<longleftrightarrow> level_has_game valid_games (category_level v)"
    if "v \<in> set all_votes" "vote_type v = CATEGORY" for v
    using r(2) that by (auto simp: groups_nonempty_iff)
  have all: "resolve_category_votes rnd k all_votes valid_games
      = Inr (build_resolved_votes res all_votes)"
    by (simp add: resolve_category_votes_def r(1))
  have len: "length (build_resolved_votes res all_votes)
         = length (filter (\<lambda>v. vote_type v = GAME) all_votes)
           + length (filter (\<lambda>v. vote_type v = CATEGORY
                                \<and> level_has_game valid_games (category_level v)) all_votes)"
    by (rule build_resolved_votes_length) (rule dom)
  have ch: "choose_categories ?G rnd (filter ?keep all_votes) Map.empty k
      = choose_categories ?G rnd all_votes Map.empty k"
    by (rule choose_categories_filter) (simp add: groups_nonempty_iff [symmetric])
  have bu: "build_resolved_votes res (filter ?keep all_votes) = build_resolved_votes res all_votes"
  proof (rule build_resolved_votes_filter)
    fix v assume v: "v \<in> set all_votes" "\<not> ?keep v"
    then have "vote_type v = CATEGORY" "\<not> level_has_game valid_games (category_level v)"
      by simp_all
    with dom [OF v(1)] show "vote_type v = CATEGORY \<and> res (category_level v) = None"
      by blast
  qed
  have "resolve_category_votes rnd k (filter ?keep all_votes) valid_games
      = Inr (build_resolved_votes res (filter ?keep all_votes))"
    unfolding resolve_category_votes_def ch r(1) by simp
  then have "resolve_category_votes rnd k (filter ?keep all_votes) valid_games
      = Inr (build_resolved_votes res all_votes)"
    by (simp only: bu)
  with all len show ?thesis by blast
qed

theorem empty_category_votes_dropped_example:
  "resolve_category_votes (rnd_const 0) 0 [vote_dee_cat7, vote_ann_catan, vote_bob_cat1, vote_dee_cat7]
       [game_catan, game_wingspan, game_gloomhaven]
     = Inr [ResolvedVote (Some 1) 1, ResolvedVote (Some 1) 2]
   \<and> resolve_category_votes (rnd_const 0) 0 [vote_dee_cat7]
       [game_catan, game_wingspan, game_gloomhaven] = Inr []"
  by (simp add: resolve_eval example_poll example_games)

subsection \<open>Facts about poll closing\<close>

lemma max_list_Max: "xs \<noteq> [] \<Longrightarrow> max_list xs = Some (Max (set xs))"
proof (cases xs)
  case Nil
  assume "xs \<noteq> []"
  with Nil show ?thesis by simp
next
  case (Cons x ys)
  then show ?thesis by (simp only: max_list.simps Max.set_eq_fold)
qed

lemma voted_ids_set: "set (voted_ids votes) = {gid. \<exists>r\<in>set votes. rv_game_id r = Some gid}"
  by (induction votes) (auto split: option.splits)

lemma scored_ids_set:
  "set (scored_ids valid_games votes)
     = set (map g_id valid_games) \<union> {gid. \<exists>r\<in>set votes. rv_game_id r = Some gid}"
  by (auto simp: scored_ids_def voted_ids_set)

lemma scored_ids_distinct: "distinct (scored_ids valid_games votes)"
  by (simp add: scored_ids_def)

lemma calculate_poll_winner_winners:
  assumes "f = (\<lambda>gid. fst (final_score policy votes priority_ids is_weighted star_collections gid))"
    and "ids = scored_ids valid_games votes"
  shows "fst (calculate_poll_winner policy name_of valid_games votes priority_ids is_weighted
               star_collections)
     = map (game_name name_of valid_games) (filter (\<lambda>gid. f gid = Max (set (map f ids))) ids)"
proof (cases "ids = []")
  case True
  then show ?thesis using assms(2) by (simp add: calculate_poll_winner_def)
next
  case False
  let ?scored = "map (\<lambda>gid. (gid, final_score policy votes priority_ids is_weighted
                                   star_collections gid)) ids"
  let ?M = "Max (set (map f ids))"
  have s: "map (\<lambda>(gid, s, l). s) ?scored = map f ids"
    by (simp add: assms(1) case_prod_unfold comp_def)
  have m: "max_list (map (\<lambda>(gid, s, l). s) ?scored) = Some ?M"
    unfolding s using False by (intro max_list_Max) simp
  have "map (\<lambda>(gid, s, l). game_name name_of valid_games gid)
          (filter (\<lambda>(gid, s, l). s = m') ?scored)
      = map (game_name name_of valid_games) (filter (\<lambda>gid. f gid = m') ids)" for m'
    by (induction ids) (simp_all add: assms(1) case_prod_unfold)
  then show ?thesis
    using m by (simp add: calculate_poll_winner_def Let_def assms(2) [symmetric])
qed

lemma calculate_poll_winner_scores:
  "fst (snd (calculate_poll_winner policy name_of valid_games votes priority_ids is_weighted
               star_collections))
     = (\<lambda>gid. if gid \<in> set (scored_ids valid_games votes)
               then Some (fst (final_score policy votes priority_ids is_weighted star_collections gid))
               else None)"
proof -
  let ?f = "\<lambda>gid. fst (final_score policy votes priority_ids is_weighted star_collections gid)"
  let ?ids = "scored_ids valid_games votes"
  let ?scored = "map (\<lambda>gid. (gid, final_score policy votes priority_ids is_weighted
                                   star_collections gid)) ?ids"
  have e: "map (\<lambda>(gid, s, l). (gid, s)) ?scored = map (\<lambda>k. (k, ?f k)) ?ids"
    by (simp add: case_prod_unfold comp_def)
  have "fst (snd (calculate_poll_winner policy name_of valid_games votes priority_ids is_weighted
                 star_collections))
      = map_of (map (\<lambda>(gid, s, l). (gid, s)) ?scored)"
    by (simp add: calculate_poll_winner_def Let_def)
  also have "\<dots> = map_of (map (\<lambda>k. (k, ?f k)) ?ids)"
    by (simp only: e)
  also have "\<dots> = (Some \<circ> ?f) |` set ?ids"
    by (rule map_of_map_restrict)
  finally show ?thesis by (auto simp: restrict_map_def fun_eq_iff)
qed

lemma final_score_unweighted:
  "fst (final_score policy votes priority_ids False star_collections gid)
     = real (length (filter (\<lambda>r. rv_game_id r = Some gid) votes))"
  by (simp add: final_score_def raw_score_def)

text \<open>
  Claim C2. Closing a poll always returns. The final score of a game is computed from the
  resolved votes of the poll, the weighting flag of the chat and the star collections; the
  scored games are the candidates and the games a resolved vote references; the returned
  score map holds the final score of exactly the scored games; and the winners are the
  names of exactly the scored games whose final score equals the maximum final score. All
  games that tie for the maximum are returned.
\<close>

theorem close_poll_winners_are_the_maxima:
  "\<exists>resolved_votes winners scores modifiers_log.
     resolve_category_votes rnd k (get_votes_for_poll db pid) valid_games = Inr resolved_votes
     \<and> close_poll policy name_of rnd k db pid chat_id valid_games priority_ids
         = Inr (winners, scores, modifiers_log)
     \<and> (let is_weighted = session_is_weighted db chat_id;
             star_collections =
               (if is_weighted then Some (build_star_collections db valid_games priority_ids)
                else None);
             score = (\<lambda>gid. fst (final_score policy resolved_votes priority_ids is_weighted
                                    star_collections gid));
             ids = scored_ids valid_games resolved_votes
         in set ids = set (map g_id valid_games) \<union> set (voted_ids resolved_votes)
            \<and> scores = (\<lambda>gid. if gid \<in> set ids then Some (score gid) else None)
            \<and> winners = map (game_name name_of valid_games)
                           (filter (\<lambda>gid. score gid = Max (set (map score ids))) ids))"
proof -
  from resolve_category_votes_char [of rnd k "get_votes_for_poll db pid" valid_games]
  obtain rv where rv: "resolve_category_votes rnd k (get_votes_for_poll db pid) valid_games = Inr rv"
    by blast
  let ?w = "session_is_weighted db chat_id"
  let ?sc = "if ?w then Some (build_star_collections db valid_games priority_ids) else None"
  let ?r = "calculate_poll_winner policy name_of valid_games rv priority_ids ?w ?sc"
  let ?f = "\<lambda>gid. fst (final_score policy rv priority_ids ?w ?sc gid)"
  let ?ids = "scored_ids valid_games rv"
  have 1: "close_poll policy name_of rnd k db pid chat_id valid_games priority_ids
       = Inr (fst ?r, fst (snd ?r), snd (snd ?r))"
    by (simp add: close_poll_def rv Let_def)
  have 2: "fst (snd ?r) = (\<lambda>gid. if gid \<in> set ?ids then Some (?f gid) else None)"
    by (rule calculate_poll_winner_scores)
  have 3: "fst ?r = map (game_name name_of valid_games)
                      (filter (\<lambda>gid. ?f gid = Max (set (map ?f ?ids))) ?ids)"
    by (rule calculate_poll_winner_winners) simp_all
  have 4: "set ?ids = set (map g_id valid_games) \<union> set (voted_ids rv)"
    by (auto simp: scored_ids_def)
  show ?thesis
    by (rule exI [of _ rv], rule exI [of _ "fst ?r"], rule exI [of _ "fst (snd ?r)"],
        rule exI [of _ "snd (snd ?r)"])
       (simp only: Let_def, intro conjI rv 1 2 3 4)
qed

lemmas close_poll_eval = close_poll_def get_votes_for_poll_def resolve_category_votes_def
  calculate_poll_winner_def final_score_def raw_score_def total_voters_def starring_users_def
  build_star_collections_def dict_get_def bonus_per_star_def tie_votes_def new_vote_def
  vote_ann_game_def vote_bob_cat_def game_catan_def game_wingspan_def game_gloomhaven_def
  Let_def scored_ids_def game_name_def session_is_weighted_def name_unlisted_def
  group_games_by_complexity_def random_choice_def rnd_const_def

text \<open>
  The example of the spec: scores 3, 3 and 1 give the two winners with score 3. In
  weighted mode the third game, starred by two users, catches up and all three win. In
  poll \<open>p1\<close> a game outside the candidate list ties for the maximum and is returned too.
\<close>

theorem close_poll_tie_example:
  "(case close_poll bonus_per_star name_unlisted (rnd_const 0) 0 db_tie ''p2'' 7
           [game_catan, game_wingspan, game_gloomhaven] {3} of
      Inl e \<Rightarrow> False
    | Inr (winners, scores, modifiers_log) \<Rightarrow>
        winners = [''Catan'', ''Wingspan''] \<and> scores 1 = Some 3 \<and> scores 2 = Some 3
        \<and> scores 3 = Some 1 \<and> scores 10 = None \<and> modifiers_log = [])"
  by (simp add: close_poll_eval db_tie_def)

theorem close_poll_weighted_example:
  "(case close_poll bonus_per_star name_unlisted (rnd_const 0) 0 db_weighted ''p2'' 7
           [game_catan, game_wingspan, game_gloomhaven] {3} of
      Inl e \<Rightarrow> False
    | Inr (winners, scores, modifiers_log) \<Rightarrow>
        winners = [''Catan'', ''Wingspan'', ''Gloomhaven''] \<and> scores 1 = Some 3
        \<and> scores 2 = Some 3 \<and> scores 3 = Some 3 \<and> modifiers_log = [''starred''])"
  by (simp add: close_poll_eval db_weighted_def)

theorem close_poll_non_candidate_example:
  "(case close_poll bonus_per_star name_unlisted (rnd_const 0) 0 db_tie ''p1'' 7
           [game_catan, game_wingspan, game_gloomhaven] {3} of
      Inl e \<Rightarrow> False
    | Inr (winners, scores, modifiers_log) \<Rightarrow>
        winners = [''Gloomhaven'', ''unlisted''] \<and> scores 1 = Some 0 \<and> scores 2 = Some 0
        \<and> scores 3 = Some 1 \<and> scores 10 = Some 1 \<and> modifiers_log = [])"
  by (simp add: close_poll_eval db_tie_def)

end
